theory Spec2Isabelle
  imports Complex_Main "HOL-Library.Multiset" "HOL-Library.AList"
begin

section \<open>Values of the quiz server\<close>

text \<open>
  The server (src/server.js) keeps question records that come out of \<open>JSON.parse\<close>, so a
  record is an arbitrary JSON value until \<open>assignQuizIds\<close> has turned it into an object.
  A JavaScript number is a double; it is modelled by the rational it denotes. An object
  is the list of its own properties in creation order, and a property read is
  \<open>map_of\<close> on that list (\<open>None\<close> is JavaScript's \<open>undefined\<close>).
\<close>

datatype json =
    JNull
  | JBool bool
  | JNum rat
  | JStr string
  | JArr "json list"
  | JObj "(string \<times> json) list"

type_synonym obj = "(string \<times> json) list"

subsection \<open>Decimal rendering and \<open>padStart\<close>\<close>

definition digit_char :: "nat \<Rightarrow> char" where
  "digit_char d = ''0123456789'' ! d"

text \<open>\<open>String(n)\<close> for a non-negative integer \<open>n\<close>.\<close>

fun string_of_nat :: "nat \<Rightarrow> string" where
  "string_of_nat n =
     (if n < 10 then [digit_char n]
      else string_of_nat (n div 10) @ [digit_char (n mod 10)])"

declare string_of_nat.simps [simp del]

text \<open>The template literal \<open>`${year}`\<close> for an integer year.\<close>

definition string_of_int :: "int \<Rightarrow> string" where
  "string_of_int i =
     (if i < 0 then CHR ''-'' # string_of_nat (nat (- i)) else string_of_nat (nat i))"

text \<open>\<open>s.padStart(targetLength, padString)\<close>.\<close>

definition padStart :: "nat \<Rightarrow> string \<Rightarrow> string \<Rightarrow> string" where
  "padStart targetLength padString s =
     (if targetLength \<le> length s \<or> padString = [] then s
      else take (targetLength - length s)
             (concat (replicate (targetLength - length s) padString)) @ s)"

section \<open>The daily seed\<close>

text \<open>
  \<open>getDailySeed\<close> reads the clock with \<open>new Date()\<close>. The clock is an input of the model:
  a \<open>js_date\<close> holds what the UTC accessors of the Date object return
  (\<open>getUTCMonth\<close> counts from 0, \<open>getUTCDate\<close> from 1).
\<close>

record js_date =
  getUTCFullYear :: int
  getUTCMonth :: nat
  getUTCDate :: nat
  getUTCHours :: nat
  getUTCMinutes :: nat
  getUTCSeconds :: nat
  getUTCMilliseconds :: nat

definition valid_date :: "js_date \<Rightarrow> bool" where
  "valid_date d = (getUTCMonth d < 12 \<and> 1 \<le> getUTCDate d \<and> getUTCDate d \<le> 31)"

definition same_utc_day :: "js_date \<Rightarrow> js_date \<Rightarrow> bool" where
  "same_utc_day a b =
     (getUTCFullYear a = getUTCFullYear b \<and> getUTCMonth a = getUTCMonth b
      \<and> getUTCDate a = getUTCDate b)"

definition getDailySeed :: "js_date \<Rightarrow> string" where
  "getDailySeed today =
     (let year = getUTCFullYear today;
          month = padStart 2 ''0'' (string_of_nat (getUTCMonth today + 1));
          day = padStart 2 ''0'' (string_of_nat (getUTCDate today))
      in string_of_int year @ month @ day)"

section \<open>Arrays in a store\<close>

text \<open>
  JavaScript arrays are objects with identity: \<open>shuffleArray\<close> writes into the array it is
  handed. Arrays therefore live in a store, a reference is an address, \<open>fresh\<close> is the next
  unused address, and \<open>[...a]\<close>, \<open>slice\<close> and an array literal allocate.
  The elements are never written to after their creation and are kept by value.
\<close>

type_synonym ref = nat

record 'a store =
  arrays :: "ref \<Rightarrow> 'a list"
  fresh :: ref

definition alloc :: "'a list \<Rightarrow> 'a store \<Rightarrow> ref \<times> 'a store" where
  "alloc xs s = (fresh s, s\<lparr>arrays := (arrays s)(fresh s := xs), fresh := Suc (fresh s)\<rparr>)"

section \<open>The seeded shuffle\<close>

text \<open>
  \<open>seedrandom\<close> is an npm package, not code of this repository. It is a parameter of the
  model: \<open>seedrandom seed\<close> is the generator made from a seed string, and the generator's
  \<open>k\<close>-th call (counting from 0) returns \<open>seedrandom seed k\<close>. Its documented contract, a
  number in \<open>[0, 1)\<close>, is the type of the result. The product with \<open>i + 1\<close> is taken
  exactly (the rounding of the double product is not modelled); \<open>Math.floor\<close> of a
  non-negative number is \<open>nat \<lfloor>_\<rfloor>\<close>.
\<close>

typedef unit_interval = "{x::rat. 0 \<le> x \<and> x < 1}"
  by (rule exI [of _ 0]) simp

setup_lifting type_definition_unit_interval

type_synonym prng = "string \<Rightarrow> nat \<Rightarrow> unit_interval"

text \<open>
  The loop \<open>for (let i = array.length - 1; i > 0; i--)\<close>: the fourth argument is \<open>i\<close>, the
  second counts the calls of \<open>rng\<close> made so far. The destructuring assignment reads
  \<open>array[j]\<close> and \<open>array[i]\<close> first, then writes \<open>array[i]\<close>, then \<open>array[j]\<close>.
\<close>

fun shuffle_loop :: "(nat \<Rightarrow> unit_interval) \<Rightarrow> nat \<Rightarrow> ref \<Rightarrow> nat \<Rightarrow> 'a store \<Rightarrow> 'a store" where
  "shuffle_loop rng calls array 0 s = s"
| "shuffle_loop rng calls array (Suc i') s =
     (let i = Suc i';
          j = nat \<lfloor>Rep_unit_interval (rng calls) * of_nat (i + 1)\<rfloor>;
          a = arrays s array;
          s' = s\<lparr>arrays := (arrays s)(array := a[i := a ! j, j := a ! i])\<rparr>
      in shuffle_loop rng (Suc calls) array i' s')"

definition shuffleArray :: "prng \<Rightarrow> ref \<Rightarrow> string \<Rightarrow> 'a store \<Rightarrow> ref \<times> 'a store" where
  "shuffleArray seedrandom array seed s =
     (let rng = seedrandom seed
      in (array, shuffle_loop rng 0 array (length (arrays s array) - 1) s))"

text \<open>
  \<open>getKRandomQuestions\<close>; \<open>K\<close> is a count (both callers pass the constant 5), and
  \<open>slice(0, count)\<close> with \<open>count\<close> at most the length is \<open>take count\<close> into a new array.
\<close>

definition getKRandomQuestions :: "prng \<Rightarrow> js_date \<Rightarrow> nat \<Rightarrow> ref \<Rightarrow> 'a store \<Rightarrow> ref \<times> 'a store" where
  "getKRandomQuestions seedrandom today K masterData s =
     (let seed = getDailySeed today;
          (dataCopy, s1) = alloc (arrays s masterData) s;
          count = min K (length (arrays s1 dataCopy));
          (shuffledCopy, s2) = shuffleArray seedrandom dataCopy seed s1
      in alloc (take count (arrays s2 shuffledCopy)) s2)"

text \<open>The daily selection of a pool: the contents of the array that \<open>getKRandomQuestions\<close> returns.\<close>

definition select :: "prng \<Rightarrow> js_date \<Rightarrow> nat \<Rightarrow> ref \<Rightarrow> 'a store \<Rightarrow> 'a list" where
  "select seedrandom today K masterData s =
     (let (r, s') = getKRandomQuestions seedrandom today K masterData s in arrays s' r)"

section \<open>Identifiers, redaction and the answer key\<close>

text \<open>
  The object spread \<open>{...q}\<close> copies the own enumerable properties of \<open>q\<close>: those of an
  object, the indexed elements of an array, the indexed characters of a string, and
  nothing for \<open>null\<close>, a boolean or a number.
\<close>

definition indexed :: "json list \<Rightarrow> obj" where
  "indexed xs = map (\<lambda>(i, x). (string_of_nat i, x)) (zip [0..<length xs] xs)"

fun spread :: "json \<Rightarrow> obj" where
  "spread (JObj ps) = ps"
| "spread (JArr xs) = indexed xs"
| "spread (JStr cs) = indexed (map (\<lambda>c. JStr [c]) cs)"
| "spread JNull = []"
| "spread (JBool b) = []"
| "spread (JNum n) = []"

definition assignQuizIds :: "json list \<Rightarrow> obj list" where
  "assignQuizIds quizData =
     map (\<lambda>(q, index). AList.update ''id'' (JNum (of_nat index + 1)) (spread q))
       (zip quizData [0..<length quizData])"

text \<open>The rest pattern \<open>{ correctAnswerIndex, ...safeQuestion } = q\<close> on an object \<open>q\<close>.\<close>

definition sanitizeQuizData :: "obj list \<Rightarrow> obj list" where
  "sanitizeQuizData questions = map (\<lambda>q. AList.delete ''correctAnswerIndex'' q) questions"

text \<open>
  The callback of \<open>reduce\<close> in \<open>/api/answer-key\<close>. \<open>typeof v === 'number'\<close> holds exactly
  of a \<open>JNum\<close>. The accumulator only ever receives properties named by a number and holding
  a number, so it is kept as a list of such pairs; \<open>acc[q.id] = v\<close> overwrites the
  property of that name or adds it.
\<close>

definition answer_key_step :: "(rat \<times> rat) list \<Rightarrow> obj \<Rightarrow> (rat \<times> rat) list" where
  "answer_key_step acc q =
     (case (map_of q ''id'', map_of q ''correctAnswerIndex'') of
        (Some (JNum i), Some (JNum c)) \<Rightarrow> AList.update i c acc
      | _ \<Rightarrow> acc)"

definition answerKey :: "obj list \<Rightarrow> (rat \<times> rat) list" where
  "answerKey todaysQuestions = foldl answer_key_step [] todaysQuestions"

text \<open>
  Two notions in which the answer key is described. A record is well typed when its
  \<open>id\<close> and its \<open>correctAnswerIndex\<close> are both present and numbers; \<open>numeric_ids\<close>
  lists, in order, the identifiers of the records whose \<open>id\<close> is a number.
\<close>

definition well_typed :: "obj \<Rightarrow> bool" where
  "well_typed q =
     (case (map_of q ''id'', map_of q ''correctAnswerIndex'') of
        (Some (JNum i), Some (JNum c)) \<Rightarrow> True
      | _ \<Rightarrow> False)"

definition numeric_id :: "obj \<Rightarrow> rat option" where
  "numeric_id q = (case map_of q ''id'' of Some (JNum i) \<Rightarrow> Some i | _ \<Rightarrow> None)"

definition numeric_ids :: "obj list \<Rightarrow> rat list" where
  "numeric_ids qs = List.map_filter numeric_id qs"

section \<open>Refreshing the pool\<close>

text \<open>
  \<open>fetchNewQuizData\<close> posts a prompt and awaits the reply. What the network does is an
  input of the model: the promise of \<open>axios.post\<close> is rejected (no connection, or a status
  outside 2xx), or it resolves and \<open>response.data\<close> is some JSON value. Everything thrown
  inside \<open>try\<close> is a value of \<open>js_error\<close>; the two \<open>throw new Error(...)\<close> of the source
  are \<open>NoValidCandidate\<close> and \<open>NoValidQuizArray\<close>.
\<close>

datatype js_error = AxiosError | TypeError | SyntaxError | NoValidCandidate | NoValidQuizArray

datatype axios_outcome = Rejected | Resolved json

datatype key = Name string | Index nat

definition bind_err :: "'e + 'a \<Rightarrow> ('a \<Rightarrow> 'e + 'b) \<Rightarrow> 'e + 'b" where
  "bind_err m f = (case m of Inl e \<Rightarrow> Inl e | Inr a \<Rightarrow> f a)"

text \<open>
  Reading a property. Reading from \<open>undefined\<close> or \<open>null\<close> throws a TypeError. The server
  reads only \<open>candidates\<close>, \<open>length\<close>, \<open>content\<close>, \<open>parts\<close>, \<open>text\<close> and the index 0, none
  of which a prototype supplies except \<open>length\<close> of arrays and strings.
\<close>

fun js_get :: "json option \<Rightarrow> key \<Rightarrow> js_error + json option" where
  "js_get None k = Inl TypeError"
| "js_get (Some JNull) k = Inl TypeError"
| "js_get (Some (JObj ps)) (Name n) = Inr (map_of ps n)"
| "js_get (Some (JObj ps)) (Index i) = Inr (map_of ps (string_of_nat i))"
| "js_get (Some (JArr xs)) (Name n) =
     Inr (if n = ''length'' then Some (JNum (of_nat (length xs))) else None)"
| "js_get (Some (JArr xs)) (Index i) = Inr (if i < length xs then Some (xs ! i) else None)"
| "js_get (Some (JStr cs)) (Name n) =
     Inr (if n = ''length'' then Some (JNum (of_nat (length cs))) else None)"
| "js_get (Some (JStr cs)) (Index i) =
     Inr (if i < length cs then Some (JStr [cs ! i]) else None)"
| "js_get (Some (JBool b)) k = Inr None"
| "js_get (Some (JNum n)) k = Inr None"

fun truthy :: "json option \<Rightarrow> bool" where
  "truthy None = False"
| "truthy (Some JNull) = False"
| "truthy (Some (JBool b)) = b"
| "truthy (Some (JNum n)) = (n \<noteq> 0)"
| "truthy (Some (JStr cs)) = (cs \<noteq> [])"
| "truthy (Some (JArr xs)) = True"
| "truthy (Some (JObj ps)) = True"

text \<open>
  The comparison \<open>v > 0\<close>. On a string, an array or an object it goes through the
  language's \<open>ToNumber\<close> conversion, a parameter here (\<open>None\<close> is \<open>NaN\<close>).
\<close>

fun js_gt_zero :: "(json \<Rightarrow> rat option) \<Rightarrow> json option \<Rightarrow> bool" where
  "js_gt_zero ToNumber None = False"
| "js_gt_zero ToNumber (Some JNull) = False"
| "js_gt_zero ToNumber (Some (JBool b)) = b"
| "js_gt_zero ToNumber (Some (JNum n)) = (0 < n)"
| "js_gt_zero ToNumber (Some v) = (case ToNumber v of None \<Rightarrow> False | Some n \<Rightarrow> 0 < n)"

definition quiz_text :: "(json \<Rightarrow> rat option) \<Rightarrow> json \<Rightarrow> js_error + json option" where
  "quiz_text ToNumber generatedContent =
     bind_err (js_get (Some generatedContent) (Name ''candidates'')) (\<lambda>candidates.
       if truthy candidates then
         bind_err (js_get candidates (Name ''length'')) (\<lambda>len.
           if js_gt_zero ToNumber len then
             bind_err (js_get candidates (Index 0)) (\<lambda>candidate.
             bind_err (js_get candidate (Name ''content'')) (\<lambda>content.
             bind_err (js_get content (Name ''parts'')) (\<lambda>parts.
             bind_err (js_get parts (Index 0)) (\<lambda>part.
             js_get part (Name ''text'')))))
           else Inl NoValidCandidate)
       else Inl NoValidCandidate)"

text \<open>\<open>replace(/```json|```/g, '')\<close>: at each position the longer alternative is tried first.\<close>

definition fence :: string where
  "fence = [CHR 0x60, CHR 0x60, CHR 0x60]"

function remove_fences :: "string \<Rightarrow> string" where
  "remove_fences cs =
     (if cs = [] then []
      else if take 7 cs = fence @ ''json'' then remove_fences (drop 7 cs)
      else if take 3 cs = fence then remove_fences (drop 3 cs)
      else hd cs # remove_fences (tl cs))"
  by pat_completeness auto
termination
  by (relation "measure length") (auto simp: neq_Nil_conv)

declare remove_fences.simps [simp del]

definition is_whitespace :: "char \<Rightarrow> bool" where
  "is_whitespace c = (of_char c \<in> {9, 10, 11, 12, 13, 32, 160 :: nat})"

definition trim :: "string \<Rightarrow> string" where
  "trim cs = rev (dropWhile is_whitespace (rev (dropWhile is_whitespace cs)))"

text \<open>
  The body of \<open>try\<close> up to the assignment: the array to store, or what was thrown.
  \<open>replace\<close> exists on strings only, so any other \<open>quizJsonText\<close> is a TypeError;
  \<open>JSON.parse\<close> is a parameter, \<open>None\<close> where it throws a SyntaxError.
\<close>

definition new_quiz_data ::
  "(json \<Rightarrow> rat option) \<Rightarrow> (string \<Rightarrow> json option) \<Rightarrow> axios_outcome \<Rightarrow> js_error + json list" where
  "new_quiz_data ToNumber JSON_parse outcome =
     (case outcome of
        Rejected \<Rightarrow> Inl AxiosError
      | Resolved generatedContent \<Rightarrow>
          bind_err (quiz_text ToNumber generatedContent) (\<lambda>quizJsonText.
            case quizJsonText of
              Some (JStr text) \<Rightarrow>
                (let cleanedJsonText = trim (remove_fences text)
                 in case JSON_parse cleanedJsonText of
                      None \<Rightarrow> Inl SyntaxError
                    | Some (JArr newQuizData) \<Rightarrow>
                        if length newQuizData > 0 then Inr newQuizData else Inl NoValidQuizArray
                    | Some _ \<Rightarrow> Inl NoValidQuizArray)
            | _ \<Rightarrow> Inl TypeError))"

text \<open>
  The server: the store and the module variable \<open>MASTER_QUIZ_DATA\<close>, which holds a
  reference. \<open>let MASTER_QUIZ_DATA = []\<close> allocates the empty array at address 0.
\<close>

record server =
  heap :: "obj store"
  MASTER_QUIZ_DATA :: ref

definition initial_server :: server where
  "initial_server = \<lparr>heap = \<lparr>arrays = (\<lambda>_. []), fresh = 1\<rparr>, MASTER_QUIZ_DATA = 0\<rparr>"

definition pool :: "server \<Rightarrow> obj list" where
  "pool srv = arrays (heap srv) (MASTER_QUIZ_DATA srv)"

text \<open>
  \<open>fetchNewQuizData\<close> returns the error that the \<open>catch\<close> block logs, if any, and the
  server afterwards. The \<open>catch\<close> block only logs.
\<close>

definition fetchNewQuizData ::
  "(json \<Rightarrow> rat option) \<Rightarrow> (string \<Rightarrow> json option) \<Rightarrow> axios_outcome \<Rightarrow> server
     \<Rightarrow> js_error option \<times> server" where
  "fetchNewQuizData ToNumber JSON_parse outcome srv =
     (case new_quiz_data ToNumber JSON_parse outcome of
        Inl error \<Rightarrow> (Some error, srv)
      | Inr newQuizData \<Rightarrow>
          (let (r, h) = alloc (assignQuizIds newQuizData) (heap srv)
           in (None, srv\<lparr>heap := h, MASTER_QUIZ_DATA := r\<rparr>)))"

section \<open>The two endpoints\<close>

datatype body = Questions "obj list" | AnswerKey "(rat \<times> rat) list" | Failure obj

record response =
  status :: nat
  body :: body

definition quiz_unavailable :: response where
  "quiz_unavailable =
     \<lparr>status = 503,
      body = Failure
        [(''errorCode'', JStr ''DATA_UNAVAILABLE''),
         (''message'', JStr ''Quiz data is currently loading or unavailable. Please wait for initial data fetch.'')]\<rparr>"

definition answer_key_unavailable :: response where
  "answer_key_unavailable = \<lparr>status = 503, body = Failure [(''error'', JStr ''Data unavailable'')]\<rparr>"

text \<open>
  The handlers. Nothing in their \<open>try\<close> blocks can throw on a pool of objects, so the
  \<open>catch\<close> branches (status 500) have no counterpart.
\<close>

definition api_quiz :: "prng \<Rightarrow> js_date \<Rightarrow> server \<Rightarrow> response \<times> server" where
  "api_quiz seedrandom today srv =
     (if length (pool srv) = 0 then (quiz_unavailable, srv)
      else
        (let K = 5;
             (todaysQuestions, h) = getKRandomQuestions seedrandom today K (MASTER_QUIZ_DATA srv) (heap srv);
             safePayload = sanitizeQuizData (arrays h todaysQuestions)
         in (\<lparr>status = 200, body = Questions safePayload\<rparr>, srv\<lparr>heap := h\<rparr>)))"

definition api_answer_key :: "prng \<Rightarrow> js_date \<Rightarrow> server \<Rightarrow> response \<times> server" where
  "api_answer_key seedrandom today srv =
     (if length (pool srv) = 0 then (answer_key_unavailable, srv)
      else
        (let K = 5;
             (todaysQuestions, h) = getKRandomQuestions seedrandom today K (MASTER_QUIZ_DATA srv) (heap srv)
         in (\<lparr>status = 200, body = AnswerKey (answerKey (arrays h todaysQuestions))\<rparr>, srv\<lparr>heap := h\<rparr>)))"

section \<open>Example inputs\<close>

text \<open>A generator for the examples: its draws are quarters that vary with the seed and the call.\<close>

lift_definition quarters :: "nat \<Rightarrow> unit_interval" is "\<lambda>n. of_nat (n mod 4) / 4"
proof -
  fix n :: nat
  have "n mod 4 < 4" by simp
  then have "(of_nat (n mod 4) :: rat) < of_nat 4" by (simp only: of_nat_less_iff)
  then show "0 \<le> (of_nat (n mod 4) :: rat) / 4 \<and> (of_nat (n mod 4) :: rat) / 4 < 1" by simp
qed

definition example_rng :: prng where
  "example_rng seed k = quarters (length seed + k)"

definition new_year_morning :: js_date where
  "new_year_morning =
     \<lparr>getUTCFullYear = 2024, getUTCMonth = 0, getUTCDate = 1, getUTCHours = 3,
      getUTCMinutes = 4, getUTCSeconds = 5, getUTCMilliseconds = 6\<rparr>"

definition new_year_evening :: js_date where
  "new_year_evening =
     \<lparr>getUTCFullYear = 2024, getUTCMonth = 0, getUTCDate = 1, getUTCHours = 23,
      getUTCMinutes = 59, getUTCSeconds = 59, getUTCMilliseconds = 999\<rparr>"

text \<open>A store with a pool at address 0, and the store of another run, with the same pool elsewhere.\<close>

definition example_store :: "int store" where
  "example_store = \<lparr>arrays = (\<lambda>_. [])(0 := [10, 20, 30]), fresh = 1\<rparr>"

definition restarted_store :: "int store" where
  "restarted_store = \<lparr>arrays = (\<lambda>_. [])(0 := [7], 1 := [10, 20, 30]), fresh = 2\<rparr>"

text \<open>
  A reply of the provider with its parsed content, the pool made from it, a reply that
  carries no candidate, and a pool all of whose records are well formed.
\<close>

definition example_raw :: "json list" where
  "example_raw =
     [JObj [(''id'', JNum 7), (''question'', JStr ''2 + 2?''),
            (''choices'', JArr [JStr ''3'', JStr ''4'', JStr ''5'']),
            (''correctAnswerIndex'', JNum 1), (''explanation'', JStr ''sum'')],
      JObj [(''question'', JStr ''3 * 3?''),
            (''choices'', JArr [JStr ''6'', JStr ''9'', JStr ''12'']),
            (''correctAnswerIndex'', JStr ''1''), (''explanation'', JStr ''product'')],
      JNull]"

definition example_pool :: "obj list" where
  "example_pool =
     [[(''id'', JNum 1), (''question'', JStr ''2 + 2?''),
       (''choices'', JArr [JStr ''3'', JStr ''4'', JStr ''5'']),
       (''correctAnswerIndex'', JNum 1), (''explanation'', JStr ''sum'')],
      [(''question'', JStr ''3 * 3?''),
       (''choices'', JArr [JStr ''6'', JStr ''9'', JStr ''12'']),
       (''correctAnswerIndex'', JStr ''1''), (''explanation'', JStr ''product''), (''id'', JNum 2)],
      [(''id'', JNum 3)]]"

definition example_text :: string where
  "example_text = fence @ ''json q '' @ fence"

definition example_reply :: json where
  "example_reply =
     JObj [(''candidates'',
       JArr [JObj [(''content'',
         JObj [(''parts'', JArr [JObj [(''text'', JStr example_text)]])])]])]"

definition example_parse :: "string \<Rightarrow> json option" where
  "example_parse text = (if text = ''q'' then Some (JArr example_raw) else None)"

definition reply_without_candidates :: json where
  "reply_without_candidates = JObj [(''error'', JStr ''quota'')]"

definition tidy_raw :: "json list" where
  "tidy_raw =
     [JObj [(''question'', JStr ''1 + 1?''), (''correctAnswerIndex'', JNum 2)],
      JObj [(''question'', JStr ''1 - 1?''), (''correctAnswerIndex'', JNum 0)]]"

definition tidy_pool :: "obj list" where
  "tidy_pool =
     [[(''question'', JStr ''1 + 1?''), (''correctAnswerIndex'', JNum 2), (''id'', JNum 1)],
      [(''question'', JStr ''1 - 1?''), (''correctAnswerIndex'', JNum 0), (''id'', JNum 2)]]"

definition tidy_store :: "obj store" where
  "tidy_store = \<lparr>arrays = (\<lambda>_. [])(0 := assignQuizIds tidy_raw), fresh = 1\<rparr>"

text \<open>A pool that no refresh made: one record has no \<open>id\<close>, one has a string for it.\<close>

definition ragged_pool :: "obj list" where
  "ragged_pool =
     [[(''question'', JStr ''a?''), (''correctAnswerIndex'', JNum 2)],
      [(''id'', JStr ''3''), (''correctAnswerIndex'', JNum 1)],
      [(''id'', JNum 4), (''correctAnswerIndex'', JNum 0)]]"

definition ragged_store :: "obj store" where
  "ragged_store = \<lparr>arrays = (\<lambda>_. [])(0 := ragged_pool), fresh = 1\<rparr>"

definition example_server :: server where
  "example_server =
     \<lparr>heap = \<lparr>arrays = (\<lambda>_. [])(1 := example_pool), fresh = 2\<rparr>, MASTER_QUIZ_DATA = 1\<rparr>"

section \<open>Properties of the seed\<close>

lemma digit_char_0 [simp]: "digit_char 0 = CHR ''0''"
  by (simp add: digit_char_def)

lemma string_of_nat_small: "n < 10 \<Longrightarrow> string_of_nat n = [digit_char n]"
  by (simp add: string_of_nat.simps)

lemma string_of_nat_two: "10 \<le> n \<Longrightarrow> n < 100 \<Longrightarrow> string_of_nat n = [digit_char (n div 10), digit_char (n mod 10)]"
  by (subst string_of_nat.simps) (simp add: string_of_nat_small)

lemma string_of_nat_three: "100 \<le> n \<Longrightarrow> n < 1000 \<Longrightarrow>
  string_of_nat n = [digit_char (n div 100), digit_char (n div 10 mod 10), digit_char (n mod 10)]"
proof -
  assume n: "100 \<le> n" "n < 1000"
  then have "10 \<le> n div 10" "n div 10 < 100" by auto
  then have "string_of_nat (n div 10) = [digit_char (n div 10 div 10), digit_char (n div 10 mod 10)]"
    by (rule string_of_nat_two)
  moreover have "n div 10 div 10 = n div 100" by (simp add: div_mult2_eq)
  ultimately show ?thesis using n by (subst string_of_nat.simps) simp
qed

lemma string_of_nat_four: "1000 \<le> n \<Longrightarrow> n < 10000 \<Longrightarrow>
  string_of_nat n = [digit_char (n div 1000), digit_char (n div 100 mod 10), digit_char (n div 10 mod 10), digit_char (n mod 10)]"
proof -
  assume n: "1000 \<le> n" "n < 10000"
  then have "100 \<le> n div 10" "n div 10 < 1000" by auto
  then have "string_of_nat (n div 10) =
      [digit_char (n div 10 div 100), digit_char (n div 10 div 10 mod 10), digit_char (n div 10 mod 10)]"
    by (rule string_of_nat_three)
  moreover have "n div 10 div 100 = n div 1000" "n div 10 div 10 = n div 100"
    by (simp_all add: div_mult2_eq)
  ultimately show ?thesis using n by (subst string_of_nat.simps) simp
qed

lemma pad2: "n < 100 \<Longrightarrow> padStart 2 ''0'' (string_of_nat n) = [digit_char (n div 10), digit_char (n mod 10)]"
  by (cases "n < 10") (simp_all add: padStart_def string_of_nat_small string_of_nat_two)

lemma seed_morning: "getDailySeed new_year_morning = ''20240101''"
  by (simp add: new_year_morning_def getDailySeed_def padStart_def string_of_int_def
      string_of_nat.simps digit_char_def)

lemma seed_evening: "getDailySeed new_year_evening = ''20240101''"
  by (simp add: new_year_evening_def getDailySeed_def padStart_def string_of_int_def
      string_of_nat.simps digit_char_def)

text \<open>
  Claim C8. The seed is the year in decimal followed by the month (counted from 1) and the
  day of the month, each as exactly two digits with a leading zero where needed; for a
  year of four digits this is the eight characters YYYYMMDD. It is a function of the UTC
  year, month and day alone: two clock readings on the same UTC day, whatever their time
  of day, give the same seed. No other input exists.
\<close>
theorem getDailySeed_is_utc_date:
  "(valid_date a \<longrightarrow>
      getDailySeed a =
        string_of_int (getUTCFullYear a)
        @ [digit_char ((getUTCMonth a + 1) div 10), digit_char ((getUTCMonth a + 1) mod 10)]
        @ [digit_char (getUTCDate a div 10), digit_char (getUTCDate a mod 10)])
   \<and> (1000 \<le> getUTCFullYear a \<and> getUTCFullYear a \<le> 9999 \<longrightarrow>
      string_of_int (getUTCFullYear a) =
        [digit_char (nat (getUTCFullYear a) div 1000), digit_char (nat (getUTCFullYear a) div 100 mod 10),
         digit_char (nat (getUTCFullYear a) div 10 mod 10), digit_char (nat (getUTCFullYear a) mod 10)])
   \<and> (same_utc_day a b \<longrightarrow> getDailySeed a = getDailySeed b)"
proof (intro conjI impI)
  assume "valid_date a"
  then have "getUTCMonth a + 1 < 100" "getUTCDate a < 100"
    by (simp_all add: valid_date_def)
  then show "getDailySeed a =
        string_of_int (getUTCFullYear a)
        @ [digit_char ((getUTCMonth a + 1) div 10), digit_char ((getUTCMonth a + 1) mod 10)]
        @ [digit_char (getUTCDate a div 10), digit_char (getUTCDate a mod 10)]"
    by (simp add: getDailySeed_def pad2 del: One_nat_def)
next
  assume "1000 \<le> getUTCFullYear a \<and> getUTCFullYear a \<le> 9999"
  then have "1000 \<le> nat (getUTCFullYear a)" "nat (getUTCFullYear a) < 10000" "\<not> getUTCFullYear a < 0"
    by linarith+
  then show "string_of_int (getUTCFullYear a) =
        [digit_char (nat (getUTCFullYear a) div 1000), digit_char (nat (getUTCFullYear a) div 100 mod 10),
         digit_char (nat (getUTCFullYear a) div 10 mod 10), digit_char (nat (getUTCFullYear a) mod 10)]"
    by (simp add: string_of_int_def string_of_nat_four)
next
  assume "same_utc_day a b"
  then show "getDailySeed a = getDailySeed b"
    by (simp add: same_utc_day_def getDailySeed_def)
qed

theorem getDailySeed_is_utc_date_witness:
  "valid_date new_year_morning
   \<and> 1000 \<le> getUTCFullYear new_year_morning \<and> getUTCFullYear new_year_morning \<le> 9999
   \<and> same_utc_day new_year_morning new_year_evening
   \<and> new_year_morning \<noteq> new_year_evening
   \<and> getDailySeed new_year_morning = ''20240101''
   \<and> getDailySeed new_year_evening = ''20240101''"
proof -
  have v: "valid_date new_year_morning"
    by (simp add: valid_date_def new_year_morning_def)
  have y: "1000 \<le> getUTCFullYear new_year_morning \<and> getUTCFullYear new_year_morning \<le> 9999"
    by (simp add: new_year_morning_def)
  have d: "same_utc_day new_year_morning new_year_evening"
    by (simp add: same_utc_day_def new_year_morning_def new_year_evening_def)
  have n: "new_year_morning \<noteq> new_year_evening"
    by (simp add: new_year_morning_def new_year_evening_def)
  note t = getDailySeed_is_utc_date [of new_year_morning new_year_evening]
  from t v y have "getDailySeed new_year_morning = ''20240101''"
    by (simp add: new_year_morning_def digit_char_def)
  moreover from t d this have "getDailySeed new_year_evening = ''20240101''"
    by simp
  ultimately show ?thesis using v y d n by simp
qed

section \<open>Properties of the shuffle\<close>

lemma draw_bound: "nat \<lfloor>Rep_unit_interval u * of_nat (Suc n)\<rfloor> \<le> n"
proof -
  have u: "0 \<le> Rep_unit_interval u" "Rep_unit_interval u < 1"
    using Rep_unit_interval [of u] by auto
  have "Rep_unit_interval u * of_nat (Suc n) < of_nat (Suc n)"
    using u by (simp del: of_nat_Suc)
  then have "\<lfloor>Rep_unit_interval u * of_nat (Suc n)\<rfloor> < int (Suc n)"
    by (simp add: floor_less_iff del: of_nat_Suc)
  then show ?thesis by simp
qed

lemma shuffle_loop_fresh: "fresh (shuffle_loop rng k a i s) = fresh s"
  by (induction i arbitrary: k s) (simp_all add: Let_def)

lemma shuffle_loop_other: "b \<noteq> a \<Longrightarrow> arrays (shuffle_loop rng k a i s) b = arrays s b"
  by (induction i arbitrary: k s) (simp_all add: Let_def)

lemma shuffle_loop_length: "length (arrays (shuffle_loop rng k a i s) a) = length (arrays s a)"
  by (induction i arbitrary: k s) (simp_all add: Let_def)

lemma shuffle_loop_mset:
  "i < length (arrays s a) \<Longrightarrow> mset (arrays (shuffle_loop rng k a i s) a) = mset (arrays s a)"
proof (induction i arbitrary: k s)
  case 0
  then show ?case by simp
next
  case (Suc i)
  let ?j = "nat \<lfloor>Rep_unit_interval (rng k) * of_nat (Suc i + 1)\<rfloor>"
  have j: "?j < length (arrays s a)"
    using draw_bound [of "rng k" "Suc i"] Suc.prems by simp
  show ?case
    using Suc.prems j by (simp add: Let_def Suc.IH mset_swap del: of_nat_Suc of_nat_add)
qed

lemma shuffle_loop_cong:
  "arrays s a = arrays t b \<Longrightarrow>
   arrays (shuffle_loop rng k a i s) a = arrays (shuffle_loop rng k b i t) b"
proof (induction i arbitrary: k s t)
  case 0
  then show ?case by simp
next
  case (Suc i)
  show ?case
    by (simp add: Let_def Suc.prems del: of_nat_Suc of_nat_add) (rule Suc.IH, simp)
qed

lemma shuffle_loop_numeral:
  "shuffle_loop rng calls array (numeral n) s =
     (let i = numeral n;
          j = nat \<lfloor>Rep_unit_interval (rng calls) * of_nat (i + 1)\<rfloor>;
          a = arrays s array;
          s' = s\<lparr>arrays := (arrays s)(array := a[i := a ! j, j := a ! i])\<rparr>
      in shuffle_loop rng (Suc calls) array (pred_numeral n) s')"
  by (simp add: numeral_eq_Suc Let_def)

lemma shuffle_loop_1:
  "shuffle_loop rng calls array (Suc 0) s =
     (let j = nat \<lfloor>Rep_unit_interval (rng calls) * 2\<rfloor>;
          a = arrays s array
      in s\<lparr>arrays := (arrays s)(array := a[Suc 0 := a ! j, j := a ! Suc 0])\<rparr>)"
  by (simp add: Let_def)

lemma shuffleArray_mset:
  "mset (arrays (snd (shuffleArray sr a seed s)) a) = mset (arrays s a)"
proof (cases "arrays s a = []")
  case True
  then show ?thesis by (simp add: shuffleArray_def)
next
  case False
  then have "length (arrays s a) - 1 < length (arrays s a)" by simp
  then show ?thesis by (simp add: shuffleArray_def shuffle_loop_mset)
qed

text \<open>
  Claim C10. \<open>shuffleArray\<close> works in place: it returns the reference it was given,
  allocates nothing, leaves every other array alone, and the array itself ends as a
  permutation of what it was. It does write: an array of two elements is swapped when
  the first draw is below one half. That \<open>getKRandomQuestions\<close> keeps the pool is
  therefore due to the copy it makes.
\<close>
theorem shuffleArray_in_place:
  "fst (shuffleArray sr a seed s) = a
   \<and> mset (arrays (snd (shuffleArray sr a seed s)) a) = mset (arrays s a)
   \<and> (\<forall>b. b \<noteq> a \<longrightarrow> arrays (snd (shuffleArray sr a seed s)) b = arrays s b)
   \<and> fresh (snd (shuffleArray sr a seed s)) = fresh s
   \<and> (arrays s a = [x, y] \<and> Rep_unit_interval (sr seed 0) < 1 / 2 \<longrightarrow>
        arrays (snd (shuffleArray sr a seed s)) a = [y, x])"
proof (intro conjI allI impI)
  show "fst (shuffleArray sr a seed s) = a"
    by (simp add: shuffleArray_def)
  show "mset (arrays (snd (shuffleArray sr a seed s)) a) = mset (arrays s a)"
    by (rule shuffleArray_mset)
  show "arrays (snd (shuffleArray sr a seed s)) b = arrays s b" if "b \<noteq> a" for b
    using that by (simp add: shuffleArray_def shuffle_loop_other)
  show "fresh (snd (shuffleArray sr a seed s)) = fresh s"
    by (simp add: shuffleArray_def shuffle_loop_fresh)
  show "arrays (snd (shuffleArray sr a seed s)) a = [y, x]"
    if h: "arrays s a = [x, y] \<and> Rep_unit_interval (sr seed 0) < 1 / 2"
  proof -
    have "0 \<le> Rep_unit_interval (sr seed 0)"
      using Rep_unit_interval [of "sr seed 0"] by simp
    with h have "\<lfloor>Rep_unit_interval (sr seed 0) * 2\<rfloor> = 0"
      by (simp add: floor_eq_iff)
    with h show ?thesis
      by (simp add: shuffleArray_def Let_def)
  qed
qed

theorem shuffleArray_in_place_witness:
  "arrays example_store 0 = [10, 20, 30]
   \<and> fst (shuffleArray example_rng 0 ''20240101'' example_store) = 0
   \<and> arrays (snd (shuffleArray example_rng 0 ''20240101'' example_store)) 0 = [20, 30, 10]
   \<and> mset (arrays (snd (shuffleArray example_rng 0 ''20240101'' example_store)) 0) = mset [10, 20, 30]
   \<and> arrays (snd (shuffleArray example_rng 0 ''20240101'' example_store)) 1 = arrays example_store 1"
proof -
  have p: "arrays example_store 0 = [10, 20, 30]"
    by (simp add: example_store_def)
  have v: "arrays (snd (shuffleArray example_rng 0 ''20240101'' example_store)) 0 = [20, 30, 10]"
    by (simp add: shuffleArray_def example_store_def example_rng_def quarters.rep_eq
        shuffle_loop_numeral shuffle_loop_1 Let_def)
  from shuffleArray_in_place [of example_rng 0 "''20240101''" example_store] p v
  show ?thesis by simp
qed

section \<open>Properties of the daily selection\<close>

lemma getK_fst: "fst (getKRandomQuestions sr d K m s) = Suc (fresh s)"
  by (simp add: getKRandomQuestions_def alloc_def shuffleArray_def Let_def shuffle_loop_fresh)

lemma getK_old: "b < fresh s \<Longrightarrow> arrays (snd (getKRandomQuestions sr d K m s)) b = arrays s b"
  by (simp add: getKRandomQuestions_def alloc_def shuffleArray_def Let_def shuffle_loop_fresh
      shuffle_loop_other)

lemma select_eq:
  "select sr d K m s =
     take (min K (length (arrays s m)))
       (arrays (shuffle_loop (sr (getDailySeed d)) 0 (fresh s) (length (arrays s m) - 1)
                 (snd (alloc (arrays s m) s))) (fresh s))"
  by (simp add: select_def getKRandomQuestions_def alloc_def shuffleArray_def Let_def shuffle_loop_fresh)

lemma select_length: "length (select sr d K m s) = min K (length (arrays s m))"
  by (simp add: select_eq shuffle_loop_length alloc_def)

lemma select_empty: "arrays s m = [] \<Longrightarrow> select sr d K m s = []"
  using select_length [of sr d K m s] by simp

lemma select_mset: "mset (select sr d K m s) \<subseteq># mset (arrays s m)"
proof -
  let ?P = "arrays s m"
  let ?s1 = "snd (alloc ?P s)"
  let ?sh = "arrays (shuffle_loop (sr (getDailySeed d)) 0 (fresh s) (length ?P - 1) ?s1) (fresh s)"
  have P: "arrays ?s1 (fresh s) = ?P" by (simp add: alloc_def)
  have "mset ?sh = mset ?P"
  proof (cases "?P = []")
    case True
    then show ?thesis using P by simp
  next
    case False
    then have "length ?P - 1 < length (arrays ?s1 (fresh s))" using P by simp
    then show ?thesis using P shuffle_loop_mset by metis
  qed
  moreover have "mset (take (min K (length ?P)) ?sh) \<subseteq># mset ?sh"
    by (metis append_take_drop_id mset_append mset_subset_eq_add_left)
  ultimately show ?thesis by (simp add: select_eq)
qed

lemma select_cong:
  assumes "getDailySeed d1 = getDailySeed d2" "arrays s1 m1 = arrays s2 m2"
  shows "select sr d1 K m1 s1 = select sr d2 K m2 s2"
proof -
  have "arrays (snd (alloc (arrays s1 m1) s1)) (fresh s1) = arrays (snd (alloc (arrays s2 m2) s2)) (fresh s2)"
    using assms by (simp add: alloc_def)
  then show ?thesis
    using assms by (simp add: select_eq) (metis shuffle_loop_cong)
qed

lemma select_example:
  "select example_rng new_year_morning 2 0 example_store = [20, 30]"
  by (simp add: select_def getKRandomQuestions_def alloc_def shuffleArray_def seed_morning
      example_store_def example_rng_def quarters.rep_eq shuffle_loop_numeral shuffle_loop_1 Let_def)

text \<open>
  Claim C1. The daily selection is determined by the contents and order of the pool, the
  UTC calendar date and \<open>K\<close>, for a fixed generator: two calls at clock readings of
  the same UTC day return the same elements in the same order, when the pool sits at
  another address of another store, as after a restart of the process, and when the
  second call runs in the store that the first call left behind.
\<close>
theorem daily_selection_deterministic:
  assumes "same_utc_day d1 d2"
  shows "(arrays s1 m1 = arrays s2 m2 \<longrightarrow> select sr d1 K m1 s1 = select sr d2 K m2 s2)
         \<and> (m < fresh s \<longrightarrow>
              select sr d2 K m (snd (getKRandomQuestions sr d1 K m s)) = select sr d1 K m s)"
proof (intro conjI impI)
  from assms have seed: "getDailySeed d1 = getDailySeed d2"
    by (simp add: same_utc_day_def getDailySeed_def)
  show "select sr d1 K m1 s1 = select sr d2 K m2 s2" if "arrays s1 m1 = arrays s2 m2"
    using seed that by (rule select_cong)
  show "select sr d2 K m (snd (getKRandomQuestions sr d1 K m s)) = select sr d1 K m s"
    if "m < fresh s"
  proof -
    from that have "arrays (snd (getKRandomQuestions sr d1 K m s)) m = arrays s m"
      by (rule getK_old)
    with seed [symmetric] show ?thesis by (rule select_cong)
  qed
qed

theorem daily_selection_deterministic_witness:
  "same_utc_day new_year_morning new_year_evening
   \<and> arrays example_store 0 = arrays restarted_store 1
   \<and> 0 < fresh example_store
   \<and> select example_rng new_year_morning 2 0 example_store = [20, 30]
   \<and> select example_rng new_year_evening 2 1 restarted_store = [20, 30]
   \<and> select example_rng new_year_evening 2 0
         (snd (getKRandomQuestions example_rng new_year_morning 2 0 example_store)) = [20, 30]"
proof -
  have d: "same_utc_day new_year_morning new_year_evening"
    by (simp add: same_utc_day_def new_year_morning_def new_year_evening_def)
  have p: "arrays example_store 0 = arrays restarted_store 1"
    by (simp add: example_store_def restarted_store_def)
  have f: "0 < fresh example_store"
    by (simp add: example_store_def)
  from daily_selection_deterministic [OF d, of example_store 0 restarted_store 1 example_rng 2 0 example_store]
    select_example d p f
  show ?thesis by simp
qed

lemma distinct_map_submset:
  assumes "mset xs \<subseteq># mset ys" and "distinct (map f ys)"
  shows "distinct (map f xs)"
proof -
  have sub: "mset (map f xs) \<subseteq># mset (map f ys)"
    using image_mset_subseteq_mono [OF assms(1), of f] by simp
  have "count (mset (map f xs)) a = (if a \<in> set (map f xs) then 1 else 0)" for a
  proof (cases "a \<in> set (map f xs)")
    case True
    then have "1 \<le> count (mset (map f xs)) a"
      by (metis count_greater_eq_one_iff set_mset_mset)
    moreover have "count (mset (map f xs)) a \<le> count (mset (map f ys)) a"
      using sub by (rule mset_subset_eq_count)
    moreover have "count (mset (map f ys)) a \<le> 1"
      using assms(2) by (simp add: distinct_count_atmost_1)
    ultimately have "count (mset (map f xs)) a = 1" by linarith
    with True show ?thesis by (simp only: if_True)
  next
    case False
    then have "count (mset (map f xs)) a = 0"
      using count_mset_0_iff [of "map f xs" a] by blast
    with False show ?thesis by (simp only: if_False)
  qed
  then show ?thesis by (simp only: distinct_count_atmost_1) simp
qed

lemma submset_same_size:
  assumes "A \<subseteq># B" and "size A = size B"
  shows "A = B"
proof (rule ccontr)
  assume "A \<noteq> B"
  with assms(1) have "A \<subset># B" by (simp add: subset_mset_def)
  then have "size A < size B" by (rule mset_subset_size)
  with assms(2) show False by simp
qed

text \<open>
  Claim C4. The selection has exactly \<open>min K |P|\<close> elements, every one of them an element
  of the pool, and none occurs more often than in the pool (so a pool without duplicates
  gives a selection without duplicates). A pool shorter than \<open>K\<close> is returned whole, in
  shuffled order.
\<close>
theorem select_size_and_origin:
  "length (select sr d K m s) = min K (length (arrays s m))
   \<and> mset (select sr d K m s) \<subseteq># mset (arrays s m)
   \<and> set (select sr d K m s) \<subseteq> set (arrays s m)
   \<and> (distinct (arrays s m) \<longrightarrow> distinct (select sr d K m s))
   \<and> (length (arrays s m) < K \<longrightarrow> length (select sr d K m s) = length (arrays s m))
   \<and> (length (arrays s m) \<le> K \<longrightarrow> mset (select sr d K m s) = mset (arrays s m))"
proof (intro conjI impI)
  show "length (select sr d K m s) = min K (length (arrays s m))"
    by (rule select_length)
  show sub: "mset (select sr d K m s) \<subseteq># mset (arrays s m)"
    by (rule select_mset)
  from sub show "set (select sr d K m s) \<subseteq> set (arrays s m)"
    using set_mset_mono [of "mset (select sr d K m s)" "mset (arrays s m)"] by simp
  show "distinct (select sr d K m s)" if "distinct (arrays s m)"
    using distinct_map_submset [OF sub, of "\<lambda>x. x"] that by simp
  show "length (select sr d K m s) = length (arrays s m)" if "length (arrays s m) < K"
    using that by (simp add: select_length)
  show "mset (select sr d K m s) = mset (arrays s m)" if "length (arrays s m) \<le> K"
  proof -
    have "size (mset (select sr d K m s)) = size (mset (arrays s m))"
      using that by (simp add: select_length)
    with sub show ?thesis by (rule submset_same_size)
  qed
qed

theorem select_size_and_origin_witness:
  "distinct (arrays example_store 0)
   \<and> length (arrays example_store 0) < 5
   \<and> select example_rng new_year_morning 5 0 example_store = [20, 30, 10]
   \<and> length (select example_rng new_year_morning 5 0 example_store) = 3
   \<and> distinct (select example_rng new_year_morning 5 0 example_store)
   \<and> mset (select example_rng new_year_morning 5 0 example_store) = mset (arrays example_store 0)"
proof -
  have a: "distinct (arrays example_store 0)" "length (arrays example_store 0) < 5"
    by (simp_all add: example_store_def)
  have v: "select example_rng new_year_morning 5 0 example_store = [20, 30, 10]"
    by (simp add: select_def getKRandomQuestions_def alloc_def shuffleArray_def seed_morning
        example_store_def example_rng_def quarters.rep_eq shuffle_loop_numeral shuffle_loop_1 Let_def)
  from select_size_and_origin [of example_rng new_year_morning 5 0 example_store] a v
  show ?thesis by simp
qed

text \<open>
  Claim C5. \<open>getKRandomQuestions\<close> leaves the pool as it was: the array it is given,
  and every other array that existed before the call, has the same contents afterwards.
  The array it returns is a new one.
\<close>
theorem getKRandomQuestions_keeps_pool:
  assumes "m < fresh s"
  shows "arrays (snd (getKRandomQuestions sr d K m s)) m = arrays s m
         \<and> (\<forall>b<fresh s. arrays (snd (getKRandomQuestions sr d K m s)) b = arrays s b)
         \<and> fst (getKRandomQuestions sr d K m s) \<noteq> m"
  using assms by (simp add: getK_old getK_fst)

theorem getKRandomQuestions_keeps_pool_witness:
  "0 < fresh example_store
   \<and> arrays (snd (getKRandomQuestions example_rng new_year_morning 2 0 example_store)) 0 = [10, 20, 30]
   \<and> arrays (snd (getKRandomQuestions example_rng new_year_morning 2 0 example_store)) 1 = [20, 30, 10]
   \<and> fst (getKRandomQuestions example_rng new_year_morning 2 0 example_store) = 2"
proof -
  have f: "0 < fresh example_store"
    by (simp add: example_store_def)
  have p: "arrays example_store 0 = [10, 20, 30]"
    by (simp add: example_store_def)
  have c: "arrays (snd (getKRandomQuestions example_rng new_year_morning 2 0 example_store)) 1 = [20, 30, 10]"
    by (simp add: getKRandomQuestions_def alloc_def shuffleArray_def seed_morning
        example_store_def example_rng_def quarters.rep_eq shuffle_loop_numeral shuffle_loop_1 Let_def)
  have r: "fst (getKRandomQuestions example_rng new_year_morning 2 0 example_store) = 2"
    by (simp add: getK_fst example_store_def)
  from getKRandomQuestions_keeps_pool [OF f, of example_rng new_year_morning 2] f p c r
  show ?thesis by simp
qed

section \<open>Properties of the redaction\<close>

text \<open>
  Claim C3. \<open>sanitizeQuizData\<close> returns as many records as it was given, in the same
  order. Each is the input record without its \<open>correctAnswerIndex\<close> property: that
  name is absent from the result, and every other property (identifier, question text,
  choices, explanation, anything else) is there with the value it had.
\<close>
theorem sanitizeQuizData_redacts:
  "length (sanitizeQuizData qs) = length qs
   \<and> (\<forall>i<length qs.
         sanitizeQuizData qs ! i = filter (\<lambda>(k, v). k \<noteq> ''correctAnswerIndex'') (qs ! i)
         \<and> ''correctAnswerIndex'' \<notin> fst ` set (sanitizeQuizData qs ! i)
         \<and> map_of (sanitizeQuizData qs ! i) ''correctAnswerIndex'' = None
         \<and> (\<forall>k. k \<noteq> ''correctAnswerIndex'' \<longrightarrow>
               map_of (sanitizeQuizData qs ! i) k = map_of (qs ! i) k))"
proof (intro conjI allI impI)
  show "length (sanitizeQuizData qs) = length qs"
    by (simp add: sanitizeQuizData_def)
next
  fix i assume i: "i < length qs"
  then have eq: "sanitizeQuizData qs ! i = AList.delete ''correctAnswerIndex'' (qs ! i)"
    by (simp add: sanitizeQuizData_def)
  show "sanitizeQuizData qs ! i = filter (\<lambda>(k, v). k \<noteq> ''correctAnswerIndex'') (qs ! i)"
    unfolding eq by (auto simp: AList.delete_eq intro!: filter_cong)
  show "''correctAnswerIndex'' \<notin> fst ` set (sanitizeQuizData qs ! i)"
    unfolding eq by (simp add: AList.delete_eq) force
  show "map_of (sanitizeQuizData qs ! i) ''correctAnswerIndex'' = None"
    unfolding eq by (simp add: AList.delete_conv)
  show "map_of (sanitizeQuizData qs ! i) k = map_of (qs ! i) k" if "k \<noteq> ''correctAnswerIndex''" for k
    unfolding eq using that by (simp add: AList.delete_conv)
qed

theorem sanitizeQuizData_redacts_witness:
  "0 < length example_pool
   \<and> map_of (example_pool ! 0) ''correctAnswerIndex'' = Some (JNum 1)
   \<and> length (sanitizeQuizData example_pool) = 3
   \<and> sanitizeQuizData example_pool ! 0 =
       [(''id'', JNum 1), (''question'', JStr ''2 + 2?''),
        (''choices'', JArr [JStr ''3'', JStr ''4'', JStr ''5'']), (''explanation'', JStr ''sum'')]
   \<and> map_of (sanitizeQuizData example_pool ! 0) ''correctAnswerIndex'' = None
   \<and> map_of (sanitizeQuizData example_pool ! 0) ''explanation'' = Some (JStr ''sum'')"
proof -
  have l: "0 < length example_pool" "length example_pool = 3"
    by (simp_all add: example_pool_def)
  have c: "map_of (example_pool ! 0) ''correctAnswerIndex'' = Some (JNum 1)"
    "map_of (example_pool ! 0) ''explanation'' = Some (JStr ''sum'')"
    "''explanation'' \<noteq> ''correctAnswerIndex''"
    by (simp_all add: example_pool_def)
  have f: "filter (\<lambda>(k, v). k \<noteq> ''correctAnswerIndex'') (example_pool ! 0) =
       [(''id'', JNum 1), (''question'', JStr ''2 + 2?''),
        (''choices'', JArr [JStr ''3'', JStr ''4'', JStr ''5'']), (''explanation'', JStr ''sum'')]"
    by (simp add: example_pool_def)
  from sanitizeQuizData_redacts [of example_pool] l c f show ?thesis
    by simp
qed

section \<open>Properties of the refresh\<close>

lemma ids_assignQuizIds:
  "i < length raw \<Longrightarrow> map_of (assignQuizIds raw ! i) ''id'' = Some (JNum (of_nat (i + 1)))"
  by (simp add: assignQuizIds_def AList.update_conv)

lemma length_assignQuizIds: "length (assignQuizIds raw) = length raw"
  by (simp add: assignQuizIds_def)

lemma map_ids_assignQuizIds:
  "map (\<lambda>q. map_of q ''id'') (assignQuizIds raw) = map (\<lambda>n. Some (JNum (of_nat n))) [1..<Suc (length raw)]"
proof (rule nth_equalityI)
  show "length (map (\<lambda>q. map_of q ''id'') (assignQuizIds raw)) = length (map (\<lambda>n. Some (JNum (of_nat n))) [1..<Suc (length raw)])"
    by (simp add: length_assignQuizIds del: upt_Suc)
next
  fix i assume "i < length (map (\<lambda>q. map_of q ''id'') (assignQuizIds raw))"
  then have i: "i < length raw" by (simp add: length_assignQuizIds)
  then have "[1..<Suc (length raw)] ! i = i + 1"
    using nth_upt [of 1 i "Suc (length raw)"] by simp
  with i show "map (\<lambda>q. map_of q ''id'') (assignQuizIds raw) ! i = map (\<lambda>n. Some (JNum (of_nat n))) [1..<Suc (length raw)] ! i"
    by (simp add: length_assignQuizIds ids_assignQuizIds del: upt_Suc)
qed

lemma distinct_ids_assignQuizIds: "distinct (map (\<lambda>q. map_of q ''id'') (assignQuizIds raw))"
proof -
  have "inj_on (\<lambda>n::nat. Some (JNum (of_nat n))) (set [1..<Suc (length raw)])"
    by (rule inj_onI) simp
  then have "distinct (map (\<lambda>n::nat. Some (JNum (of_nat n))) [1..<Suc (length raw)])"
    by (simp add: distinct_map del: upt_Suc)
  then show ?thesis by (simp only: map_ids_assignQuizIds)
qed

lemma other_fields_assignQuizIds:
  "i < length raw \<Longrightarrow> k \<noteq> ''id'' \<Longrightarrow>
   map_of (assignQuizIds raw ! i) k = map_of (spread (raw ! i)) k"
  by (simp add: assignQuizIds_def AList.update_conv)

lemma assign_example: "assignQuizIds example_raw = example_pool"
  by (simp add: assignQuizIds_def example_raw_def example_pool_def upt_rec)

lemma clean_example: "trim (remove_fences example_text) = ''q''"
  by (simp add: example_text_def remove_fences.simps fence_def trim_def is_whitespace_def)

lemma quiz_text_example: "quiz_text T example_reply = Inr (Some (JStr example_text))"
  by (simp add: quiz_text_def example_reply_def bind_err_def string_of_nat.simps digit_char_def)

lemma new_quiz_data_example: "new_quiz_data T example_parse (Resolved example_reply) = Inr example_raw"
  by (simp add: new_quiz_data_def quiz_text_example bind_err_def clean_example example_parse_def
      example_raw_def)

lemma fetch_example:
  "fetchNewQuizData T example_parse (Resolved example_reply) initial_server = (None, example_server)"
  by (simp add: fetchNewQuizData_def new_quiz_data_example assign_example alloc_def
      initial_server_def example_server_def)

lemma new_quiz_data_nonempty: "new_quiz_data T P outcome = Inr raw \<Longrightarrow> raw \<noteq> []"
  by (auto simp: new_quiz_data_def bind_err_def Let_def
      split: axios_outcome.splits sum.splits option.splits json.splits if_splits)

lemma new_quiz_data_Inr:
  "new_quiz_data T P outcome = Inr raw \<Longrightarrow>
   \<exists>g t. outcome = Resolved g \<and> quiz_text T g = Inr (Some (JStr t))
     \<and> P (trim (remove_fences t)) = Some (JArr raw)"
  by (auto simp: new_quiz_data_def bind_err_def Let_def
      split: axios_outcome.splits sum.splits option.splits json.splits if_splits)

lemma fetch_success:
  assumes "fetchNewQuizData T P outcome srv = (None, srv')"
  shows "\<exists>raw. new_quiz_data T P outcome = Inr raw \<and> pool srv' = assignQuizIds raw"
  using assms
  by (auto simp: fetchNewQuizData_def alloc_def pool_def split: sum.splits)

lemma fetch_failure:
  "new_quiz_data T P outcome = Inl e \<Longrightarrow> fetchNewQuizData T P outcome srv = (Some e, srv)"
  by (simp add: fetchNewQuizData_def)

text \<open>
  Claim C9. When a refresh succeeds, the pool holds one record for each element of the
  parsed array, in the order of arrival, and the \<open>id\<close> properties read 1, 2, ..., n; so
  they are pairwise distinct. This holds whatever the elements were: an \<open>id\<close> that an
  element brought along is overwritten, and all its other properties are kept.
\<close>
theorem refreshed_pool_ids:
  assumes "fetchNewQuizData T P outcome srv = (None, srv')"
  shows "\<exists>raw. new_quiz_data T P outcome = Inr raw \<and> raw \<noteq> []
           \<and> length (pool srv') = length raw
           \<and> map (\<lambda>q. map_of q ''id'') (pool srv')
               = map (\<lambda>n. Some (JNum (of_nat n))) [1..<Suc (length raw)]
           \<and> distinct (map (\<lambda>q. map_of q ''id'') (pool srv'))
           \<and> (\<forall>i<length raw. \<forall>k. k \<noteq> ''id'' \<longrightarrow>
                 map_of (pool srv' ! i) k = map_of (spread (raw ! i)) k)"
proof -
  from fetch_success [OF assms] obtain raw
    where raw: "new_quiz_data T P outcome = Inr raw" "pool srv' = assignQuizIds raw"
    by blast
  from raw(1) have "raw \<noteq> []" by (rule new_quiz_data_nonempty)
  moreover have "length (pool srv') = length raw"
    by (simp only: raw(2) length_assignQuizIds)
  moreover have "map (\<lambda>q. map_of q ''id'') (pool srv')
               = map (\<lambda>n. Some (JNum (of_nat n))) [1..<Suc (length raw)]"
    by (simp only: raw(2) map_ids_assignQuizIds)
  moreover have "distinct (map (\<lambda>q. map_of q ''id'') (pool srv'))"
    by (simp only: raw(2) distinct_ids_assignQuizIds)
  moreover have "\<forall>i<length raw. \<forall>k. k \<noteq> ''id'' \<longrightarrow>
                 map_of (pool srv' ! i) k = map_of (spread (raw ! i)) k"
    by (simp only: raw(2)) (blast intro: other_fields_assignQuizIds)
  ultimately show ?thesis using raw(1) by blast
qed

theorem refreshed_pool_ids_witness:
  "fetchNewQuizData (\<lambda>v. None) example_parse (Resolved example_reply) initial_server
     = (None, example_server)
   \<and> map_of (spread (example_raw ! 0)) ''id'' = Some (JNum 7)
   \<and> map_of (spread (example_raw ! 1)) ''id'' = None
   \<and> map (\<lambda>q. map_of q ''id'') (pool example_server) = [Some (JNum 1), Some (JNum 2), Some (JNum 3)]
   \<and> distinct (map (\<lambda>q. map_of q ''id'') (pool example_server))"
proof -
  have f: "fetchNewQuizData (\<lambda>v. None) example_parse (Resolved example_reply) initial_server
     = (None, example_server)"
    by (rule fetch_example)
  from refreshed_pool_ids [OF f] obtain raw
    where raw: "new_quiz_data (\<lambda>v. None) example_parse (Resolved example_reply) = Inr raw"
      and ids: "map (\<lambda>q. map_of q ''id'') (pool example_server)
               = map (\<lambda>n. Some (JNum (of_nat n))) [1..<Suc (length raw)]"
      and dist: "distinct (map (\<lambda>q. map_of q ''id'') (pool example_server))"
    by blast
  from raw have "raw = example_raw" by (simp add: new_quiz_data_example)
  then have "length raw = 3" by (simp add: example_raw_def)
  with ids have "map (\<lambda>q. map_of q ''id'') (pool example_server) = [Some (JNum 1), Some (JNum 2), Some (JNum 3)]"
    by (simp add: upt_rec)
  moreover have "map_of (spread (example_raw ! 0)) ''id'' = Some (JNum 7)"
    "map_of (spread (example_raw ! 1)) ''id'' = None"
    by (simp_all add: example_raw_def)
  ultimately show ?thesis using f dist by simp
qed

lemma quiz_text_no_candidates:
  "map_of ps ''candidates'' = None \<or> map_of ps ''candidates'' = Some (JArr []) \<Longrightarrow>
   quiz_text T (JObj ps) = Inl NoValidCandidate"
  by (auto simp: quiz_text_def bind_err_def)

text \<open>
  Claim C7. A refresh that fails leaves the server, and so the pool, exactly as it was,
  and \<open>fetchNewQuizData\<close> returns normally with the error it logged: when the request is
  rejected, when the reply has no candidate, when the text does not parse, and when the
  parsed value is not a non-empty array; in general, whenever an error is logged. The
  server changes only if the text of the reply parsed to a non-empty array.
\<close>
theorem fetch_failure_keeps_pool:
  "fetchNewQuizData T P Rejected srv = (Some AxiosError, srv)
   \<and> (map_of ps ''candidates'' = None \<or> map_of ps ''candidates'' = Some (JArr []) \<longrightarrow>
        fetchNewQuizData T P (Resolved (JObj ps)) srv = (Some NoValidCandidate, srv))
   \<and> (quiz_text T g = Inr (Some (JStr t)) \<and> P (trim (remove_fences t)) = None \<longrightarrow>
        fetchNewQuizData T P (Resolved g) srv = (Some SyntaxError, srv))
   \<and> (quiz_text T g = Inr (Some (JStr t)) \<and> P (trim (remove_fences t)) = Some v
        \<and> (\<forall>xs. v = JArr xs \<longrightarrow> xs = []) \<longrightarrow>
        fetchNewQuizData T P (Resolved g) srv = (Some NoValidQuizArray, srv))
   \<and> (fetchNewQuizData T P outcome srv = (Some e, srv') \<longrightarrow> srv' = srv)
   \<and> (snd (fetchNewQuizData T P outcome srv) \<noteq> srv \<longrightarrow>
        (\<exists>g t xs. outcome = Resolved g \<and> quiz_text T g = Inr (Some (JStr t))
           \<and> P (trim (remove_fences t)) = Some (JArr xs) \<and> xs \<noteq> []))"
proof (intro conjI impI)
  show "fetchNewQuizData T P Rejected srv = (Some AxiosError, srv)"
    by (simp add: fetch_failure new_quiz_data_def)
next
  assume "map_of ps ''candidates'' = None \<or> map_of ps ''candidates'' = Some (JArr [])"
  then have "quiz_text T (JObj ps) = Inl NoValidCandidate"
    by (rule quiz_text_no_candidates)
  then show "fetchNewQuizData T P (Resolved (JObj ps)) srv = (Some NoValidCandidate, srv)"
    by (simp add: fetch_failure new_quiz_data_def bind_err_def)
next
  assume "quiz_text T g = Inr (Some (JStr t)) \<and> P (trim (remove_fences t)) = None"
  then show "fetchNewQuizData T P (Resolved g) srv = (Some SyntaxError, srv)"
    by (simp add: fetch_failure new_quiz_data_def bind_err_def)
next
  assume a: "quiz_text T g = Inr (Some (JStr t)) \<and> P (trim (remove_fences t)) = Some v
        \<and> (\<forall>xs. v = JArr xs \<longrightarrow> xs = [])"
  then have "new_quiz_data T P (Resolved g) = Inl NoValidQuizArray"
    by (cases v) (simp_all add: new_quiz_data_def bind_err_def)
  then show "fetchNewQuizData T P (Resolved g) srv = (Some NoValidQuizArray, srv)"
    by (rule fetch_failure)
next
  assume "fetchNewQuizData T P outcome srv = (Some e, srv')"
  then show "srv' = srv"
    by (auto simp: fetchNewQuizData_def Let_def split: sum.splits prod.splits)
next
  assume changed: "snd (fetchNewQuizData T P outcome srv) \<noteq> srv"
  show "\<exists>g t xs. outcome = Resolved g \<and> quiz_text T g = Inr (Some (JStr t))
           \<and> P (trim (remove_fences t)) = Some (JArr xs) \<and> xs \<noteq> []"
  proof (cases "new_quiz_data T P outcome")
    case (Inl e)
    then have "snd (fetchNewQuizData T P outcome srv) = srv"
      by (simp add: fetch_failure)
    with changed show ?thesis by simp
  next
    case (Inr raw)
    from new_quiz_data_Inr [OF Inr] new_quiz_data_nonempty [OF Inr] show ?thesis
      by blast
  qed
qed

theorem fetch_failure_keeps_pool_witness:
  "fetchNewQuizData (\<lambda>v. None) example_parse Rejected example_server = (Some AxiosError, example_server)
   \<and> map_of [(''error'', JStr ''quota'')] ''candidates'' = None
   \<and> fetchNewQuizData (\<lambda>v. None) example_parse (Resolved reply_without_candidates) example_server
       = (Some NoValidCandidate, example_server)
   \<and> fetchNewQuizData (\<lambda>v. None) (\<lambda>text. None) (Resolved example_reply) example_server
       = (Some SyntaxError, example_server)
   \<and> fetchNewQuizData (\<lambda>v. None) (\<lambda>text. Some (JArr [])) (Resolved example_reply) example_server
       = (Some NoValidQuizArray, example_server)
   \<and> snd (fetchNewQuizData (\<lambda>v. None) example_parse (Resolved example_reply) initial_server)
       \<noteq> initial_server
   \<and> example_parse (trim (remove_fences example_text)) = Some (JArr example_raw)"
proof -
  let ?T = "\<lambda>v::json. None :: rat option"
  let ?t = "example_text"
  have q: "quiz_text ?T example_reply = Inr (Some (JStr ?t))"
    by (rule quiz_text_example)
  have c: "map_of [(''error'', JStr ''quota'')] ''candidates'' = None"
    by simp
  have n: "(\<lambda>text::string. None :: json option) (trim (remove_fences ?t)) = None"
    by simp
  have e: "(\<lambda>text::string. Some (JArr [])) (trim (remove_fences ?t)) = Some (JArr [])
           \<and> (\<forall>xs. JArr [] = JArr xs \<longrightarrow> xs = [])"
    by simp
  have "example_server \<noteq> initial_server"
    by (simp add: example_server_def initial_server_def)
  then have s: "snd (fetchNewQuizData ?T example_parse (Resolved example_reply) initial_server)
       \<noteq> initial_server"
    by (simp add: fetch_example)
  have p: "example_parse (trim (remove_fences ?t)) = Some (JArr example_raw)"
    by (simp add: clean_example example_parse_def)
  note t = fetch_failure_keeps_pool
  from t [of ?T example_parse example_server "[(''error'', JStr ''quota'')]"]
  have 1: "fetchNewQuizData ?T example_parse Rejected example_server = (Some AxiosError, example_server)"
    and 2: "fetchNewQuizData ?T example_parse (Resolved reply_without_candidates) example_server
       = (Some NoValidCandidate, example_server)"
    using c by (simp_all add: reply_without_candidates_def)
  from t [of ?T "\<lambda>text. None" example_server _ example_reply ?t] q n
  have 3: "fetchNewQuizData ?T (\<lambda>text. None) (Resolved example_reply) example_server
       = (Some SyntaxError, example_server)"
    by simp
  from t [of ?T "\<lambda>text. Some (JArr [])" example_server _ example_reply ?t "JArr []"] q e
  have 4: "fetchNewQuizData ?T (\<lambda>text. Some (JArr [])) (Resolved example_reply) example_server
       = (Some NoValidQuizArray, example_server)"
    by simp
  from 1 2 3 4 c s p show ?thesis by simp
qed

section \<open>Properties of the endpoints\<close>

text \<open>
  Claim C6. On an empty pool the selection is empty and both endpoints answer 503, with
  the bodies \<open>{errorCode: "DATA_UNAVAILABLE", message: ...}\<close> and
  \<open>{error: "Data unavailable"}\<close>. On a non-empty pool neither answers 503: they answer
  200 with the redacted selection and with the answer key of the selection.
\<close>
theorem empty_pool_unavailable:
  "(pool srv = [] \<longrightarrow>
      select sr d K (MASTER_QUIZ_DATA srv) (heap srv) = []
      \<and> api_quiz sr d srv =
          (\<lparr>status = 503,
            body = Failure
              [(''errorCode'', JStr ''DATA_UNAVAILABLE''),
               (''message'', JStr ''Quiz data is currently loading or unavailable. Please wait for initial data fetch.'')]\<rparr>,
           srv)
      \<and> api_answer_key sr d srv =
          (\<lparr>status = 503, body = Failure [(''error'', JStr ''Data unavailable'')]\<rparr>, srv))
   \<and> (pool srv \<noteq> [] \<longrightarrow>
      status (fst (api_quiz sr d srv)) \<noteq> 503
      \<and> status (fst (api_answer_key sr d srv)) \<noteq> 503
      \<and> fst (api_quiz sr d srv) =
          \<lparr>status = 200,
           body = Questions (sanitizeQuizData (select sr d 5 (MASTER_QUIZ_DATA srv) (heap srv)))\<rparr>
      \<and> fst (api_answer_key sr d srv) =
          \<lparr>status = 200,
           body = AnswerKey (answerKey (select sr d 5 (MASTER_QUIZ_DATA srv) (heap srv)))\<rparr>)"
proof (intro conjI impI)
  assume e: "pool srv = []"
  then show "select sr d K (MASTER_QUIZ_DATA srv) (heap srv) = []"
    by (simp add: pool_def select_empty)
  from e show "api_quiz sr d srv =
          (\<lparr>status = 503,
            body = Failure
              [(''errorCode'', JStr ''DATA_UNAVAILABLE''),
               (''message'', JStr ''Quiz data is currently loading or unavailable. Please wait for initial data fetch.'')]\<rparr>,
           srv)"
    by (simp add: api_quiz_def quiz_unavailable_def)
  from e show "api_answer_key sr d srv =
          (\<lparr>status = 503, body = Failure [(''error'', JStr ''Data unavailable'')]\<rparr>, srv)"
    by (simp add: api_answer_key_def answer_key_unavailable_def)
next
  assume n: "pool srv \<noteq> []"
  then show q: "fst (api_quiz sr d srv) =
          \<lparr>status = 200,
           body = Questions (sanitizeQuizData (select sr d 5 (MASTER_QUIZ_DATA srv) (heap srv)))\<rparr>"
    by (simp add: api_quiz_def Let_def select_def split: prod.splits)
  from n show a: "fst (api_answer_key sr d srv) =
          \<lparr>status = 200,
           body = AnswerKey (answerKey (select sr d 5 (MASTER_QUIZ_DATA srv) (heap srv)))\<rparr>"
    by (simp add: api_answer_key_def Let_def select_def split: prod.splits)
  from q show "status (fst (api_quiz sr d srv)) \<noteq> 503" by simp
  from a show "status (fst (api_answer_key sr d srv)) \<noteq> 503" by simp
qed

theorem empty_pool_unavailable_witness:
  "pool initial_server = []
   \<and> select example_rng new_year_morning 5 (MASTER_QUIZ_DATA initial_server) (heap initial_server) = []
   \<and> status (fst (api_quiz example_rng new_year_morning initial_server)) = 503
   \<and> status (fst (api_answer_key example_rng new_year_morning initial_server)) = 503
   \<and> pool example_server \<noteq> []
   \<and> status (fst (api_quiz example_rng new_year_morning example_server)) = 200
   \<and> status (fst (api_answer_key example_rng new_year_morning example_server)) = 200"
proof -
  have e: "pool initial_server = []"
    by (simp add: pool_def initial_server_def)
  have n: "pool example_server \<noteq> []"
    by (simp add: pool_def example_server_def example_pool_def)
  from empty_pool_unavailable [of initial_server example_rng new_year_morning 5] e
  have 1: "select example_rng new_year_morning 5 (MASTER_QUIZ_DATA initial_server) (heap initial_server) = []"
    "status (fst (api_quiz example_rng new_year_morning initial_server)) = 503"
    "status (fst (api_answer_key example_rng new_year_morning initial_server)) = 503"
    by simp_all
  from empty_pool_unavailable [of example_server example_rng new_year_morning 5] n
  have 2: "status (fst (api_quiz example_rng new_year_morning example_server)) = 200"
    "status (fst (api_answer_key example_rng new_year_morning example_server)) = 200"
    by simp_all
  from e n 1 2 show ?thesis by simp
qed

section \<open>Properties of the answer key\<close>

lemma answer_key_step_map_of:
  "map_of (answer_key_step acc q) =
     (case (map_of q ''id'', map_of q ''correctAnswerIndex'') of
        (Some (JNum j), Some (JNum c)) \<Rightarrow> (map_of acc)(j \<mapsto> c)
      | _ \<Rightarrow> map_of acc)"
  by (simp add: answer_key_step_def AList.update_conv' split: option.splits json.splits)

lemma answer_key_fold_sound:
  "map_of (foldl answer_key_step acc qs) i = Some c \<Longrightarrow>
   map_of acc i = Some c
   \<or> (\<exists>q\<in>set qs. map_of q ''id'' = Some (JNum i) \<and> map_of q ''correctAnswerIndex'' = Some (JNum c))"
proof (induction qs arbitrary: acc)
  case Nil
  then show ?case by simp
next
  case (Cons x xs)
  from Cons.prems have "map_of (foldl answer_key_step (answer_key_step acc x) xs) i = Some c"
    by simp
  from Cons.IH [OF this] show ?case
  proof
    assume "map_of (answer_key_step acc x) i = Some c"
    then show ?thesis
      by (auto simp: answer_key_step_map_of split: option.splits json.splits if_splits)
  next
    assume "\<exists>q\<in>set xs. map_of q ''id'' = Some (JNum i) \<and> map_of q ''correctAnswerIndex'' = Some (JNum c)"
    then show ?thesis by auto
  qed
qed

lemma answer_key_fold_untouched:
  "\<forall>q\<in>set qs. map_of q ''id'' \<noteq> Some (JNum i) \<Longrightarrow>
   map_of (foldl answer_key_step acc qs) i = map_of acc i"
proof (induction qs arbitrary: acc)
  case Nil
  then show ?case by simp
next
  case (Cons x xs)
  then have "map_of (foldl answer_key_step (answer_key_step acc x) xs) i = map_of (answer_key_step acc x) i"
    by simp
  moreover from Cons.prems have "map_of (answer_key_step acc x) i = map_of acc i"
    by (auto simp: answer_key_step_map_of split: option.splits json.splits)
  ultimately show ?case by simp
qed

lemma answer_key_step_skip: "\<not> well_typed q \<Longrightarrow> answer_key_step acc q = acc"
  by (auto simp: well_typed_def answer_key_step_def split: option.splits json.splits)

lemma answer_key_fold_filter:
  "foldl answer_key_step acc qs = foldl answer_key_step acc (filter well_typed qs)"
  by (induction qs arbitrary: acc) (simp_all add: answer_key_step_skip)

lemma numeric_ids_Cons:
  "numeric_ids (x # xs) =
     (case map_of x ''id'' of Some (JNum i) \<Rightarrow> i # numeric_ids xs | _ \<Rightarrow> numeric_ids xs)"
  by (simp add: numeric_ids_def numeric_id_def map_filter_simps split: option.splits json.splits)

lemma numeric_ids_member:
  "q \<in> set qs \<Longrightarrow> map_of q ''id'' = Some (JNum i) \<Longrightarrow> i \<in> set (numeric_ids qs)"
  by (induction qs) (auto simp: numeric_ids_Cons split: option.splits json.splits)

lemma numeric_ids_tail: "distinct (numeric_ids (x # xs)) \<Longrightarrow> distinct (numeric_ids xs)"
  by (auto simp: numeric_ids_Cons split: option.splits json.splits)

lemma numeric_ids_head:
  "distinct (numeric_ids (x # xs)) \<Longrightarrow> map_of x ''id'' = Some (JNum i) \<Longrightarrow>
   i \<notin> set (numeric_ids xs)"
  by (simp add: numeric_ids_Cons)

lemma numeric_ids_submset:
  assumes "mset xs \<subseteq># mset ys"
  shows "mset (numeric_ids xs) \<subseteq># mset (numeric_ids ys)"
proof -
  have eq: "mset (numeric_ids zs) =
      image_mset (the \<circ> numeric_id) (filter_mset (\<lambda>q. numeric_id q \<noteq> None) (mset zs))" for zs
    by (simp add: numeric_ids_def map_filter_def)
  from assms have "filter_mset (\<lambda>q. numeric_id q \<noteq> None) (mset xs)
      \<subseteq># filter_mset (\<lambda>q. numeric_id q \<noteq> None) (mset ys)"
    by (rule multiset_filter_mono)
  then have "image_mset (the \<circ> numeric_id) (filter_mset (\<lambda>q. numeric_id q \<noteq> None) (mset xs))
      \<subseteq># image_mset (the \<circ> numeric_id) (filter_mset (\<lambda>q. numeric_id q \<noteq> None) (mset ys))"
    by (rule image_mset_subseteq_mono)
  then show ?thesis by (simp only: eq)
qed

lemma numeric_ids_of_map:
  "map (\<lambda>q. map_of q ''id'') qs = map (\<lambda>n. Some (JNum (f n))) ns \<Longrightarrow> numeric_ids qs = map f ns"
proof (induction qs arbitrary: ns)
  case Nil
  then show ?case by (simp add: numeric_ids_def map_filter_simps)
next
  case (Cons x xs)
  then obtain n ns' where ns: "ns = n # ns'" by (cases ns) auto
  with Cons.prems have "map_of x ''id'' = Some (JNum (f n))"
    "map (\<lambda>q. map_of q ''id'') xs = map (\<lambda>n. Some (JNum (f n))) ns'"
    by simp_all
  with Cons.IH [of ns'] ns show ?case by (simp add: numeric_ids_Cons)
qed

lemma numeric_ids_assignQuizIds: "distinct (numeric_ids (assignQuizIds raw))"
proof -
  have "numeric_ids (assignQuizIds raw) = map of_nat [1..<Suc (length raw)]"
    by (rule numeric_ids_of_map) (rule map_ids_assignQuizIds)
  moreover have "distinct (map (of_nat :: nat \<Rightarrow> rat) [1..<Suc (length raw)])"
    by (simp add: distinct_map inj_on_def del: upt_Suc)
  ultimately show ?thesis by simp
qed

lemma answer_key_fold_complete:
  "distinct (numeric_ids qs) \<Longrightarrow> q \<in> set qs \<Longrightarrow>
   map_of q ''id'' = Some (JNum i) \<Longrightarrow> map_of q ''correctAnswerIndex'' = Some (JNum c) \<Longrightarrow>
   map_of (foldl answer_key_step acc qs) i = Some c"
proof (induction qs arbitrary: acc)
  case Nil
  then show ?case by simp
next
  case (Cons x xs)
  show ?case
  proof (cases "q = x")
    case True
    with Cons.prems(1,3) have "i \<notin> set (numeric_ids xs)"
      by (simp add: numeric_ids_head)
    then have "\<forall>y\<in>set xs. map_of y ''id'' \<noteq> Some (JNum i)"
      using numeric_ids_member by blast
    then have "map_of (foldl answer_key_step (answer_key_step acc x) xs) i = map_of (answer_key_step acc x) i"
      by (rule answer_key_fold_untouched)
    moreover from True Cons.prems(3,4) have "map_of (answer_key_step acc x) i = Some c"
      by (simp add: answer_key_step_map_of)
    ultimately show ?thesis by simp
  next
    case False
    with Cons.prems have "q \<in> set xs" by simp
    moreover from Cons.prems(1) have "distinct (numeric_ids xs)"
      by (rule numeric_ids_tail)
    ultimately show ?thesis
      using Cons.IH [of "answer_key_step acc x"] Cons.prems(3,4) by simp
  qed
qed

lemma answerKey_sound:
  "map_of (answerKey qs) i = Some c \<Longrightarrow>
   \<exists>q\<in>set qs. map_of q ''id'' = Some (JNum i) \<and> map_of q ''correctAnswerIndex'' = Some (JNum c)"
  using answer_key_fold_sound [of "[]" qs i c] by (simp add: answerKey_def)

lemma answerKey_iff:
  assumes "distinct (numeric_ids qs)"
  shows "map_of (answerKey qs) i = Some c \<longleftrightarrow>
     (\<exists>q\<in>set qs. map_of q ''id'' = Some (JNum i) \<and> map_of q ''correctAnswerIndex'' = Some (JNum c))"
proof
  assume "map_of (answerKey qs) i = Some c"
  then show "\<exists>q\<in>set qs. map_of q ''id'' = Some (JNum i) \<and> map_of q ''correctAnswerIndex'' = Some (JNum c)"
    by (rule answerKey_sound)
next
  assume "\<exists>q\<in>set qs. map_of q ''id'' = Some (JNum i) \<and> map_of q ''correctAnswerIndex'' = Some (JNum c)"
  then show "map_of (answerKey qs) i = Some c"
    using answer_key_fold_complete [OF assms] by (auto simp: answerKey_def)
qed

lemma same_id_same_entry:
  "distinct (numeric_ids qs) \<Longrightarrow> q \<in> set qs \<Longrightarrow> q' \<in> set qs \<Longrightarrow>
   map_of q ''id'' = Some (JNum i) \<Longrightarrow> map_of q' ''id'' = Some (JNum i) \<Longrightarrow> q = q'"
proof (induction qs)
  case Nil
  then show ?case by simp
next
  case (Cons x xs)
  have tail: "distinct (numeric_ids xs)"
    using Cons.prems(1) by (rule numeric_ids_tail)
  have clash: False if "y \<in> set xs" "map_of y ''id'' = Some (JNum i)" "map_of x ''id'' = Some (JNum i)" for y
    using numeric_ids_head [OF Cons.prems(1) that(3)] numeric_ids_member [OF that(1,2)] by simp
  show ?case
  proof (cases "q = x")
    case qx: True
    show ?thesis
    proof (cases "q' = x")
      case True
      with qx show ?thesis by simp
    next
      case False
      with Cons.prems(3) have "q' \<in> set xs" by simp
      with clash [of q'] Cons.prems(4,5) qx show ?thesis by simp
    qed
  next
    case qx: False
    with Cons.prems(2) have q: "q \<in> set xs" by simp
    show ?thesis
    proof (cases "q' = x")
      case True
      with clash [of q] q Cons.prems(4,5) show ?thesis by simp
    next
      case False
      with Cons.prems(3) have "q' \<in> set xs" by simp
      with Cons.IH [OF tail q] Cons.prems(4,5) show ?thesis by simp
    qed
  qed
qed

text \<open>
  Claim C2. For every pool, the answer key of the daily selection is built only from
  selected records that are well typed: an entry \<open>i \<mapsto> c\<close> of the key comes from a
  selected record with the number \<open>i\<close> as its \<open>id\<close> and the number \<open>c\<close> as its
  \<open>correctAnswerIndex\<close>, and a record whose \<open>id\<close> or \<open>correctAnswerIndex\<close> is absent
  or not a number is passed over: the key is that of the well-typed records alone. The
  extraction is a total function, so nothing makes it fail. When the numeric identifiers
  of the pool are pairwise distinct, as they are in every pool that \<open>assignQuizIds\<close> makes,
  the key maps \<open>i\<close> to \<open>c\<close> exactly when such a record is selected, each entry is the
  \<open>correctAnswerIndex\<close> of the pool record with that \<open>id\<close>, and for a pool of well-typed
  records the keys are exactly the identifiers of the selection.
\<close>
theorem answer_key_of_selection:
  "(map_of (answerKey (select sr d K m s)) i = Some c \<longrightarrow>
      (\<exists>q\<in>set (select sr d K m s).
          map_of q ''id'' = Some (JNum i) \<and> map_of q ''correctAnswerIndex'' = Some (JNum c)))
   \<and> (\<not> well_typed q \<longrightarrow> answer_key_step acc q = acc)
   \<and> answerKey (select sr d K m s) = answerKey (filter well_typed (select sr d K m s))
   \<and> (distinct (numeric_ids (arrays s m)) \<longrightarrow>
        (map_of (answerKey (select sr d K m s)) i = Some c \<longleftrightarrow>
           (\<exists>q\<in>set (select sr d K m s).
               map_of q ''id'' = Some (JNum i) \<and> map_of q ''correctAnswerIndex'' = Some (JNum c)))
        \<and> (\<forall>q\<in>set (select sr d K m s).
             map_of q ''id'' = Some (JNum i) \<and> (\<forall>c'. map_of q ''correctAnswerIndex'' \<noteq> Some (JNum c'))
             \<longrightarrow> map_of (answerKey (select sr d K m s)) i = None)
        \<and> (\<forall>q\<in>set (arrays s m).
             map_of q ''id'' = Some (JNum i) \<and> map_of (answerKey (select sr d K m s)) i = Some c
             \<longrightarrow> q \<in> set (select sr d K m s) \<and> map_of q ''correctAnswerIndex'' = Some (JNum c))
        \<and> ((\<forall>q\<in>set (arrays s m). well_typed q) \<longrightarrow>
             dom (map_of (answerKey (select sr d K m s)))
               = {j. \<exists>q\<in>set (select sr d K m s). map_of q ''id'' = Some (JNum j)}))
   \<and> distinct (numeric_ids (assignQuizIds raw))"
proof -
  let ?sel = "select sr d K m s"
  let ?P = "arrays s m"
  let ?typed = "\<lambda>q j c. map_of q ''id'' = Some (JNum j) \<and> map_of q ''correctAnswerIndex'' = Some (JNum c)"
  have sub: "mset ?sel \<subseteq># mset ?P" by (rule select_mset)
  then have subset: "set ?sel \<subseteq> set ?P"
    using set_mset_mono [of "mset ?sel" "mset ?P"] by simp
  have a: "map_of (answerKey ?sel) i = Some c \<longrightarrow> (\<exists>q\<in>set ?sel. ?typed q i c)"
    using answerKey_sound [of ?sel i c] by blast
  have b: "\<not> well_typed q \<longrightarrow> answer_key_step acc q = acc"
    by (simp add: answer_key_step_skip)
  have c: "answerKey ?sel = answerKey (filter well_typed ?sel)"
    unfolding answerKey_def by (rule answer_key_fold_filter)
  have e: "distinct (numeric_ids (assignQuizIds raw))"
    by (rule numeric_ids_assignQuizIds)
  have d: "(map_of (answerKey ?sel) i = Some c \<longleftrightarrow> (\<exists>q\<in>set ?sel. ?typed q i c))
        \<and> (\<forall>q\<in>set ?sel.
             map_of q ''id'' = Some (JNum i) \<and> (\<forall>c'. map_of q ''correctAnswerIndex'' \<noteq> Some (JNum c'))
             \<longrightarrow> map_of (answerKey ?sel) i = None)
        \<and> (\<forall>q\<in>set ?P.
             map_of q ''id'' = Some (JNum i) \<and> map_of (answerKey ?sel) i = Some c
             \<longrightarrow> q \<in> set ?sel \<and> map_of q ''correctAnswerIndex'' = Some (JNum c))
        \<and> ((\<forall>q\<in>set ?P. well_typed q) \<longrightarrow>
             dom (map_of (answerKey ?sel)) = {j. \<exists>q\<in>set ?sel. map_of q ''id'' = Some (JNum j)})"
    if dP: "distinct (numeric_ids ?P)"
  proof -
    have dsel: "distinct (numeric_ids ?sel)"
      using distinct_map_submset [OF numeric_ids_submset [OF sub], of "\<lambda>x. x"] dP by simp
    note iff = answerKey_iff [OF dsel]
    have 1: "map_of (answerKey ?sel) i = Some c \<longleftrightarrow> (\<exists>q\<in>set ?sel. ?typed q i c)"
      by (rule iff)
    have 2: "map_of (answerKey ?sel) i = None"
      if q: "q \<in> set ?sel" "map_of q ''id'' = Some (JNum i)"
        "\<forall>c'. map_of q ''correctAnswerIndex'' \<noteq> Some (JNum c')" for q
    proof (rule ccontr)
      assume "map_of (answerKey ?sel) i \<noteq> None"
      then obtain c' where "map_of (answerKey ?sel) i = Some c'" by blast
      then obtain q' where q': "q' \<in> set ?sel" "?typed q' i c'"
        using iff [of i c'] by blast
      with q(1,2) have "q = q'"
        using same_id_same_entry [OF dsel, of q q' i] by simp
      with q(3) q'(2) show False by simp
    qed
    have 3: "q \<in> set ?sel \<and> map_of q ''correctAnswerIndex'' = Some (JNum c)"
      if q: "q \<in> set ?P" "map_of q ''id'' = Some (JNum i)" "map_of (answerKey ?sel) i = Some c" for q
    proof -
      from q(3) obtain q' where q': "q' \<in> set ?sel" "?typed q' i c"
        using 1 by blast
      with subset have "q' \<in> set ?P" by blast
      with q(1,2) q'(2) have "q = q'"
        using same_id_same_entry [OF dP, of q q' i] by simp
      with q' show ?thesis by simp
    qed
    have 4: "dom (map_of (answerKey ?sel)) = {j. \<exists>q\<in>set ?sel. map_of q ''id'' = Some (JNum j)}"
      if wf: "\<forall>q\<in>set ?P. well_typed q"
    proof (rule set_eqI)
      fix j
      show "j \<in> dom (map_of (answerKey ?sel)) \<longleftrightarrow> j \<in> {j. \<exists>q\<in>set ?sel. map_of q ''id'' = Some (JNum j)}"
      proof
        assume "j \<in> dom (map_of (answerKey ?sel))"
        then obtain c' where "map_of (answerKey ?sel) j = Some c'" by blast
        then show "j \<in> {j. \<exists>q\<in>set ?sel. map_of q ''id'' = Some (JNum j)}"
          using iff [of j c'] by blast
      next
        assume "j \<in> {j. \<exists>q\<in>set ?sel. map_of q ''id'' = Some (JNum j)}"
        then obtain q where q: "q \<in> set ?sel" "map_of q ''id'' = Some (JNum j)" by blast
        with subset wf have "well_typed q" by blast
        then obtain c' where "map_of q ''correctAnswerIndex'' = Some (JNum c')"
          by (auto simp: well_typed_def split: option.splits json.splits)
        with q have "map_of (answerKey ?sel) j = Some c'"
          using iff [of j c'] by blast
        then show "j \<in> dom (map_of (answerKey ?sel))" by blast
      qed
    qed
    from 1 2 3 4 show ?thesis by blast
  qed
  from a b c d e show ?thesis by blast
qed

lemma select_server_example:
  "select example_rng new_year_morning 5 1 (heap example_server)
     = [example_pool ! 1, example_pool ! 2, example_pool ! 0]"
  by (simp add: select_def getKRandomQuestions_def alloc_def shuffleArray_def seed_morning
      example_server_def example_pool_def example_rng_def quarters.rep_eq
      shuffle_loop_numeral shuffle_loop_1 Let_def)

lemma assign_tidy: "assignQuizIds tidy_raw = tidy_pool"
  by (simp add: assignQuizIds_def tidy_raw_def tidy_pool_def upt_rec)

lemma select_tidy:
  "select example_rng new_year_morning 5 0 tidy_store = [tidy_pool ! 1, tidy_pool ! 0]"
  by (simp add: select_def getKRandomQuestions_def alloc_def shuffleArray_def seed_morning
      tidy_store_def assign_tidy tidy_pool_def example_rng_def quarters.rep_eq
      shuffle_loop_1 Let_def)

lemma select_ragged:
  "select example_rng new_year_morning 5 0 ragged_store
     = [ragged_pool ! 1, ragged_pool ! 2, ragged_pool ! 0]"
  by (simp add: select_def getKRandomQuestions_def alloc_def shuffleArray_def seed_morning
      ragged_store_def ragged_pool_def example_rng_def quarters.rep_eq
      shuffle_loop_numeral shuffle_loop_1 Let_def)

theorem answer_key_of_selection_witness:
  "map_of (ragged_pool ! 0) ''id'' = None
   \<and> map_of (ragged_pool ! 1) ''id'' = Some (JStr ''3'')
   \<and> map well_typed ragged_pool = [False, False, True]
   \<and> answer_key_step [(4, 0)] (ragged_pool ! 0) = [(4, 0)]
   \<and> filter well_typed (select example_rng new_year_morning 5 0 ragged_store) = [ragged_pool ! 2]
   \<and> answerKey (select example_rng new_year_morning 5 0 ragged_store) = [(4, 0)]
   \<and> numeric_ids (arrays ragged_store 0) = [4]
   \<and> map_of (answerKey (select example_rng new_year_morning 5 0 ragged_store)) 4 = Some 0
   \<and> numeric_ids (arrays (heap example_server) 1) = [1, 2, 3]
   \<and> map_of (example_pool ! 1) ''correctAnswerIndex'' = Some (JStr ''1'')
   \<and> answerKey (select example_rng new_year_morning 5 1 (heap example_server)) = [(1, 1)]
   \<and> map_of (answerKey (select example_rng new_year_morning 5 1 (heap example_server))) 1 = Some 1
   \<and> map_of (answerKey (select example_rng new_year_morning 5 1 (heap example_server))) 2 = None
   \<and> numeric_ids (arrays tidy_store 0) = [1, 2]
   \<and> map well_typed (arrays tidy_store 0) = [True, True]
   \<and> dom (map_of (answerKey (select example_rng new_year_morning 5 0 tidy_store))) = {1, 2}"
proof -
  let ?sel = "select example_rng new_year_morning 5 1 (heap example_server)"
  let ?tidy = "select example_rng new_year_morning 5 0 tidy_store"
  let ?rag = "select example_rng new_year_morning 5 0 ragged_store"
  note inst = answer_key_of_selection [where sr = example_rng and d = new_year_morning and K = 5]
  have r0: "map_of (ragged_pool ! 0) ''id'' = None"
    "map_of (ragged_pool ! 1) ''id'' = Some (JStr ''3'')"
    "map well_typed ragged_pool = [False, False, True]"
    by (simp_all add: ragged_pool_def well_typed_def)
  then have nw: "\<not> well_typed (ragged_pool ! 0)"
    by (simp add: ragged_pool_def well_typed_def)
  from inst [where q = "ragged_pool ! 0" and acc = "[(4, 0)]"] nw
  have r1: "answer_key_step [(4, 0)] (ragged_pool ! 0) = [(4, 0)]"
    by blast
  have r2: "filter well_typed ?rag = [ragged_pool ! 2]"
    unfolding select_ragged by (simp add: ragged_pool_def well_typed_def)
  have "answerKey [ragged_pool ! 2] = [(4, 0)]"
    by (simp add: answerKey_def answer_key_step_def ragged_pool_def)
  with inst [where s = ragged_store and m = 0] r2
  have r3: "answerKey ?rag = [(4, 0)]"
    by simp
  have r4: "numeric_ids (arrays ragged_store 0) = [4]"
    by (simp add: ragged_store_def ragged_pool_def numeric_ids_def numeric_id_def map_filter_simps)
  have r5: "map_of (answerKey ?rag) 4 = Some 0"
    using r3 by simp
  have n: "numeric_ids (arrays (heap example_server) 1) = [1, 2, 3]"
    by (simp add: example_server_def example_pool_def numeric_ids_def numeric_id_def map_filter_simps)
  then have dn: "distinct (numeric_ids (arrays (heap example_server) 1))"
    by simp
  have m: "example_pool ! 0 \<in> set ?sel" "example_pool ! 1 \<in> set ?sel"
    unfolding select_server_example by simp_all
  have f: "map_of (example_pool ! 0) ''id'' = Some (JNum 1)
     \<and> map_of (example_pool ! 0) ''correctAnswerIndex'' = Some (JNum 1)"
    "map_of (example_pool ! 1) ''id'' = Some (JNum 2)"
    "map_of (example_pool ! 1) ''correctAnswerIndex'' = Some (JStr ''1'')"
    by (simp_all add: example_pool_def)
  from inst [where s = "heap example_server" and m = 1 and i = 1 and c = 1] dn m(1) f(1)
  have a1: "map_of (answerKey ?sel) 1 = Some 1"
    by blast
  have nn: "\<forall>c'. map_of (example_pool ! 1) ''correctAnswerIndex'' \<noteq> Some (JNum c')"
    using f(3) by simp
  from inst [where s = "heap example_server" and m = 1 and i = 2 and c = 0] dn m(2) f(2) nn
  have a2: "map_of (answerKey ?sel) 2 = None"
    by blast
  have k: "answerKey ?sel = [(1, 1)]"
    unfolding select_server_example
    by (simp add: answerKey_def answer_key_step_def example_pool_def)
  have tn: "numeric_ids (arrays tidy_store 0) = [1, 2]"
    by (simp add: tidy_store_def assign_tidy tidy_pool_def numeric_ids_def numeric_id_def map_filter_simps)
  then have dt: "distinct (numeric_ids (arrays tidy_store 0))"
    by simp
  have w': "map well_typed (arrays tidy_store 0) = [True, True]"
    by (simp add: tidy_store_def assign_tidy tidy_pool_def well_typed_def)
  then have w: "\<forall>q\<in>set (arrays tidy_store 0). well_typed q"
    by (simp add: tidy_store_def assign_tidy tidy_pool_def well_typed_def)
  have ids: "{j. \<exists>q\<in>set ?tidy. map_of q ''id'' = Some (JNum j)} = {1, 2}"
    unfolding select_tidy by (auto simp: tidy_pool_def)
  from inst [where s = tidy_store and m = 0] dt w
  have "dom (map_of (answerKey ?tidy)) = {j. \<exists>q\<in>set ?tidy. map_of q ''id'' = Some (JNum j)}"
    by blast
  with ids have dd: "dom (map_of (answerKey ?tidy)) = {1, 2}"
    by (simp only:)
  from r0 r1 r2 r3 r4 r5 n f(3) k a1 a2 tn w' dd show ?thesis by simp
qed

end
